theory Spec2Isabelle
  imports Main
begin

section \<open>Python strings and lists\<close>

text \<open>
  A Python \<open>str\<close> is modelled by its UTF-8 encoding: a \<open>string\<close> whose characters are the
  bytes. None of the modelled code measures a length or indexes into a string, and every
  literal it searches for is ASCII apart from the whitespace class \<open>\s\<close> and the characters
  of \<open>remove_these\<close>, which are written out below as byte sequences.
\<close>

datatype error = IndexError | ValueError | KeyError | TypeError | AttributeError

definition newline :: char where
  "newline = CHR 0x0A"

definition quote :: char where
  "quote = CHR 0x22"

text \<open>\<open>s.startswith(p)\<close> and \<open>s.endswith(p)\<close>.\<close>

definition startswith :: "string \<Rightarrow> string \<Rightarrow> bool" where
  "startswith s p = (take (length p) s = p)"

definition endswith :: "string \<Rightarrow> string \<Rightarrow> bool" where
  "endswith s p = (length p \<le> length s \<and> drop (length s - length p) s = p)"

text \<open>\<open>s.strip(chars)\<close>: every leading and every trailing character of \<open>chars\<close> goes.\<close>

definition strip :: "string \<Rightarrow> string \<Rightarrow> string" where
  "strip s chars =
     rev (dropWhile (\<lambda>c. c \<in> set chars) (rev (dropWhile (\<lambda>c. c \<in> set chars) s)))"

text \<open>\<open>sep.join(pieces)\<close>.\<close>

fun join :: "string \<Rightarrow> string list \<Rightarrow> string" where
  "join sep [] = []"
| "join sep [p] = p"
| "join sep (p # q # ps) = p @ sep @ join sep (q # ps)"

text \<open>\<open>s.split(sep)\<close> for a separator of one character: never an empty list.\<close>

fun split :: "string \<Rightarrow> char \<Rightarrow> string list" where
  "split [] sep = [[]]"
| "split (c # s) sep =
     (if c = sep then [] # split s sep
      else (case split s sep of p # ps \<Rightarrow> (c # p) # ps | [] \<Rightarrow> [[c]]))"

text \<open>
  \<open>s.upper()\<close> on the ASCII letters. Python also maps cased letters outside ASCII; the
  bytes of such characters are left as they are here, so the model is that of set codes
  written in ASCII.
\<close>

definition upper_char :: "char \<Rightarrow> char" where
  "upper_char c =
     (if 97 \<le> (of_char c :: nat) \<and> (of_char c :: nat) \<le> 122
      then char_of ((of_char c :: nat) - 32) else c)"

definition upper :: "string \<Rightarrow> string" where
  "upper s = map upper_char s"

text \<open>\<open>xs[i]\<close>: a negative index counts from the end, an index out of range raises.\<close>

definition getitem :: "'a list \<Rightarrow> int \<Rightarrow> error + 'a" where
  "getitem xs i =
     (if 0 \<le> i \<and> i < int (length xs) then Inr (xs ! nat i)
      else if i < 0 \<and> - i \<le> int (length xs) then Inr (xs ! nat (int (length xs) + i))
      else Inl IndexError)"

text \<open>\<open>xs.index(x)\<close>: the first position of \<open>x\<close>, \<open>ValueError\<close> when there is none.\<close>

fun list_index :: "'a list \<Rightarrow> 'a \<Rightarrow> error + int" where
  "list_index [] x = Inl ValueError"
| "list_index (y # ys) x =
     (if y = x then Inr 0
      else (case list_index ys x of Inl e \<Rightarrow> Inl e | Inr i \<Rightarrow> Inr (i + 1)))"

text \<open>\<open>"%d" % n\<close> for an integer.\<close>

fun digits :: "nat \<Rightarrow> string" where
  "digits n =
     (if n < 10 then [char_of (48 + n)] else digits (n div 10) @ [char_of (48 + n mod 10)])"

definition format_d :: "int \<Rightarrow> string" where
  "format_d n = (if n < 0 then CHR ''-'' # digits (nat (- n)) else digits (nat n))"

section \<open>Regular expressions of the name normalizers\<close>

text \<open>
  The class \<open>\s\<close> of a \<open>str\<close> pattern is Unicode whitespace: U+0009..U+000D,
  U+001C..U+0020, U+0085, U+00A0, U+1680, U+2000..U+200A, U+2028, U+2029, U+202F, U+205F
  and U+3000, here in UTF-8.
\<close>

definition whitespace :: "string list" where
  "whitespace =
     [[CHR 0x09], [CHR 0x0A], [CHR 0x0B], [CHR 0x0C], [CHR 0x0D],
      [CHR 0x1C], [CHR 0x1D], [CHR 0x1E], [CHR 0x1F], [CHR 0x20],
      [CHR 0xC2, CHR 0x85], [CHR 0xC2, CHR 0xA0],
      [CHR 0xE1, CHR 0x9A, CHR 0x80],
      [CHR 0xE2, CHR 0x80, CHR 0x80], [CHR 0xE2, CHR 0x80, CHR 0x81],
      [CHR 0xE2, CHR 0x80, CHR 0x82], [CHR 0xE2, CHR 0x80, CHR 0x83],
      [CHR 0xE2, CHR 0x80, CHR 0x84], [CHR 0xE2, CHR 0x80, CHR 0x85],
      [CHR 0xE2, CHR 0x80, CHR 0x86], [CHR 0xE2, CHR 0x80, CHR 0x87],
      [CHR 0xE2, CHR 0x80, CHR 0x88], [CHR 0xE2, CHR 0x80, CHR 0x89],
      [CHR 0xE2, CHR 0x80, CHR 0x8A],
      [CHR 0xE2, CHR 0x80, CHR 0xA8], [CHR 0xE2, CHR 0x80, CHR 0xA9],
      [CHR 0xE2, CHR 0x80, CHR 0xAF], [CHR 0xE2, CHR 0x81, CHR 0x9F],
      [CHR 0xE3, CHR 0x80, CHR 0x80]]"

text \<open>
  A matcher tries its pattern at the head of the input and returns what follows the match.
  \<open>match_s\<close> is \<open>\s\<close>: one whitespace character.
\<close>

definition match_s :: "string \<Rightarrow> string option" where
  "match_s s =
     (case find (\<lambda>p. startswith s p) whitespace of
        None \<Rightarrow> None
      | Some p \<Rightarrow> Some (drop (length p) s))"

text \<open>
  \<open>two_faced_card_re = r"\s//\s.*"\<close>: the dot matches anything but a newline and the
  star is greedy, so the match runs to the next newline or to the end.
\<close>

definition two_faced_card_re :: "string \<Rightarrow> string option" where
  "two_faced_card_re s =
     (case match_s s of
        None \<Rightarrow> None
      | Some r \<Rightarrow>
          if startswith r ''//'' then
            (case match_s (drop 2 r) of
               None \<Rightarrow> None
             | Some t \<Rightarrow> Some (dropWhile (\<lambda>c. c \<noteq> newline) t))
          else None)"

text \<open>
  The tabular converter's \<open>token_card_re = "\sToken$"\<close>: without the MULTILINE flag the
  dollar matches at the end of the string and just before a newline that ends the string.
\<close>

definition token_card_re_csv :: "string \<Rightarrow> string option" where
  "token_card_re_csv s =
     (case match_s s of
        None \<Rightarrow> None
      | Some r \<Rightarrow>
          if r = ''Token'' \<or> r = ''Token'' @ [newline] then Some (drop 5 r) else None)"

text \<open>The structured converter's \<open>token_card_re = " Token"\<close>.\<close>

definition token_card_re_json :: "string \<Rightarrow> string option" where
  "token_card_re_json s = (if startswith s '' Token'' then Some (drop 6 s) else None)"

text \<open>\<open>any_of_these = f"({two_faced_card_re}|{token_card_re})"\<close>: the first alternative first.\<close>

definition any_of_these_csv :: "string \<Rightarrow> string option" where
  "any_of_these_csv s =
     (case two_faced_card_re s of Some r \<Rightarrow> Some r | None \<Rightarrow> token_card_re_csv s)"

definition any_of_these_json :: "string \<Rightarrow> string option" where
  "any_of_these_json s =
     (case two_faced_card_re s of Some r \<Rightarrow> Some r | None \<Rightarrow> token_card_re_json s)"

text \<open>
  \<open>re.sub(pattern, "", s)\<close>: scan from the left, drop every match, copy every other
  character, go on behind each match. Both patterns consume at least one character
  (\<open>any_of_these_csv_shorter\<close>, \<open>any_of_these_json_shorter\<close>), so the test on the length never
  fails for them; it is what makes the scan total for an arbitrary matcher.
\<close>

fun re_sub :: "(string \<Rightarrow> string option) \<Rightarrow> string \<Rightarrow> string" where
  "re_sub m [] = []"
| "re_sub m (c # s) =
     (case m (c # s) of
        None \<Rightarrow> c # re_sub m s
      | Some r \<Rightarrow> if length r < length (c # s) then re_sub m r else c # re_sub m s)"

definition fix_other_name_formatting_quirks :: "string \<Rightarrow> string" where
  "fix_other_name_formatting_quirks name = re_sub any_of_these_csv name"

definition fix_name_formatting_quirks :: "string \<Rightarrow> string" where
  "fix_name_formatting_quirks name = re_sub any_of_these_json name"

section \<open>Errors and output\<close>

text \<open>
  A raise is the value \<open>Inl e\<close>; \<open>and_then\<close> passes it on and hands a result to the rest of
  the computation.
\<close>

definition and_then :: "error + 'a \<Rightarrow> ('a \<Rightarrow> error + 'b) \<Rightarrow> error + 'b" where
  "and_then r f = (case r of Inl e \<Rightarrow> Inl e | Inr x \<Rightarrow> f x)"

text \<open>
  What a run leaves behind: the files written, by path, and the text sent to the standard
  output. \<open>print(s)\<close> sends \<open>s\<close> and a newline; \<open>open(path, "w")\<close> with one \<open>f.write(s)\<close> leaves
  \<open>s\<close> as the content of \<open>path\<close>, whatever was there.
\<close>

record world =
  files :: "string \<Rightarrow> string option"
  stdout :: string

definition print :: "string \<Rightarrow> world \<Rightarrow> world" where
  "print s w = w\<lparr>stdout := stdout w @ s @ [newline]\<rparr>"

definition write_file :: "string \<Rightarrow> string \<Rightarrow> world \<Rightarrow> world" where
  "write_file path s w = w\<lparr>files := (files w)(path \<mapsto> s)\<rparr>"

definition basic_lands :: "string list" where
  "basic_lands = [''Plains'', ''Mountain'', ''Forest'', ''Island'', ''Swamp'']"

text \<open>The triple-quoted literal both converters put before the land lines.\<close>

definition banner :: string where
  "banner =
     [newline] @ [newline] @
     ''-----------------------------------------------------------'' @ [newline] @
     ''| NOTE:                                                    |'' @ [newline] @
     ''| Basic lands are not supported by TCGPlayer's mass entry. |'' @ [newline] @
     ''| Copy these somewhere so you can find them manually.      |'' @ [newline] @
     ''| They should already be in '' @ [quote] @ ''search-ready'' @ [quote] @
       '' format.         |'' @ [newline] @
     ''-----------------------------------------------------------'' @ [newline] @
     [newline]"

section \<open>The tabular converter (scryfall\_csv\_to\_txt.py)\<close>

text \<open>
  \<open>csv_file.readlines()\<close>: the text cut behind every newline, each line keeping its
  newline. The text is what the file object delivers, line ends already translated to
  \<open>\n\<close>.
\<close>

fun readlines :: "string \<Rightarrow> string list" where
  "readlines [] = []"
| "readlines (c # s) =
     (if c = newline then [c] # readlines s
      else (case readlines s of [] \<Rightarrow> [[c]] | l # ls \<Rightarrow> (c # l) # ls))"

text \<open>
  The \<open>while\<close> loop of \<open>normalize_name\<close>. It ends at a cell that ends with a quote, or with
  \<open>IndexError\<close> when the cells run out.
\<close>

function normalize_loop ::
  "int \<Rightarrow> string list \<Rightarrow> int \<Rightarrow> string \<Rightarrow> string list \<Rightarrow> error + (string list \<times> int)" where
  "normalize_loop idx_name card' name_offset current_str name_pieces =
     (if endswith current_str [quote] then Inr (name_pieces, name_offset)
      else (case getitem card' (idx_name + (name_offset + 1)) of
              Inl e \<Rightarrow> Inl e
            | Inr s \<Rightarrow> normalize_loop idx_name card' (name_offset + 1) s (name_pieces @ [s])))"
  by pat_completeness auto
termination
  by (relation "measure (\<lambda>(idx_name, card', name_offset, current_str, name_pieces).
        nat (int (length card') - (idx_name + name_offset)))")
     (auto simp: getitem_def split: if_splits)

definition normalize_name :: "int \<Rightarrow> string list \<Rightarrow> nat \<Rightarrow> error + (string \<times> int)" where
  "normalize_name idx_name card' expected_num_columns =
     and_then (getitem card' idx_name) (\<lambda>name.
       if startswith name [quote] \<and> length card' > expected_num_columns then
         and_then (normalize_loop idx_name card' 0 name [name]) (\<lambda>(name_pieces, name_offset).
           Inr (strip (join '','' name_pieces) [quote], name_offset))
       else Inr (name, 0))"

text \<open>
  The body of the loop over the cards in \<open>main\<close>: one line more in \<open>new_lines\<close> or in
  \<open>lands\<close>.
\<close>

definition csv_card ::
  "string list \<Rightarrow> int \<Rightarrow> int \<Rightarrow> string list \<Rightarrow> string list \<times> string list
     \<Rightarrow> error + (string list \<times> string list)" where
  "csv_card csv_column_names idx_count idx_name card' acc =
     (case acc of (new_lines, lands) \<Rightarrow>
      and_then (getitem card' idx_count) (\<lambda>count.
      and_then (normalize_name idx_name card' (length csv_column_names)) (\<lambda>(name0, name_offset).
        let name = fix_other_name_formatting_quirks name0 in
        and_then (list_index csv_column_names ''set_code'') (\<lambda>i.
          let idx_code = i + name_offset in
          and_then (list_index csv_column_names ''collector_number'') (\<lambda>j.
            let idx_num = j + name_offset in
            and_then (getitem card' idx_code) (\<lambda>set_code.
            and_then (getitem card' idx_num) (\<lambda>num.
              if name \<in> set basic_lands then
                and_then (getitem card' (idx_code - 1)) (\<lambda>label.
                  Inr (new_lines,
                       lands @ [name @ '' ('' @ num @ '') - '' @ label @
                                '' ('' @ upper set_code @ '')'']))
              else
                Inr (new_lines @
                       [count @ '' '' @ name @ '' ['' @ upper set_code @ ''] '' @ num],
                     lands))))))))"

fun csv_cards ::
  "string list \<Rightarrow> int \<Rightarrow> int \<Rightarrow> string list list \<Rightarrow> string list \<times> string list
     \<Rightarrow> error + (string list \<times> string list)" where
  "csv_cards csv_column_names idx_count idx_name [] acc = Inr acc"
| "csv_cards csv_column_names idx_count idx_name (card' # cards) acc =
     and_then (csv_card csv_column_names idx_count idx_name card' acc)
       (csv_cards csv_column_names idx_count idx_name cards)"

text \<open>
  \<open>main\<close> up to the end of its loop: the cells of every line, the header, the two column
  lookups made before the loop, and the loop. \<open>text\<close> is the content of \<open>src_csv\<close>.
\<close>

definition csv_lines :: "string \<Rightarrow> string list list" where
  "csv_lines text = map (\<lambda>line. split line CHR '','') (readlines text)"

definition csv_entries :: "string \<Rightarrow> error + (string list \<times> string list)" where
  "csv_entries text =
     (let lines = csv_lines text in
      and_then (getitem lines 0) (\<lambda>csv_column_names.
        let cards = drop 1 lines in
        and_then (list_index csv_column_names ''count'') (\<lambda>idx_count.
        and_then (list_index csv_column_names ''name'') (\<lambda>idx_name.
          csv_cards csv_column_names idx_count idx_name cards ([], [])))))"

text \<open>
  \<open>main(src_csv, dest_filename)\<close>: the result is the error raised, if any, and the world
  after the run.
\<close>

definition main :: "string \<Rightarrow> string \<Rightarrow> world \<Rightarrow> error option \<times> world" where
  "main text dest_filename w =
     (case csv_entries text of
        Inl e \<Rightarrow> (Some e, w)
      | Inr (new_lines, lands) \<Rightarrow>
          let formatted_card_content =
                join [newline] new_lines @ banner @ join [newline] lands
          in (None,
              if dest_filename \<noteq> [] then write_file dest_filename formatted_card_content w
              else print formatted_card_content w))"

section \<open>The structured converter (scryfall\_json\_to\_txt.py)\<close>

text \<open>
  The value \<open>json.loads\<close> returns. An object is a \<open>dict\<close>, its keys in the order of the
  document and no key twice. Numbers are integers: one with a fraction or an exponent,
  a \<open>float\<close> in Python, is outside the model.
\<close>

datatype json =
  JNull | JBool bool | JInt int | JStr string | JList "json list" | JObj "(string \<times> json) list"

text \<open>\<open>v[key]\<close> with a \<open>str\<close> key: only a \<open>dict\<close> takes one.\<close>

fun subscript :: "json \<Rightarrow> string \<Rightarrow> error + json" where
  "subscript (JObj kvs) key = (case map_of kvs key of None \<Rightarrow> Inl KeyError | Some v \<Rightarrow> Inr v)"
| "subscript v key = Inl TypeError"

text \<open>\<open>v.items()\<close>.\<close>

fun items :: "json \<Rightarrow> error + (string \<times> json) list" where
  "items (JObj kvs) = Inr kvs"
| "items v = Inl AttributeError"

text \<open>
  \<open>for card in v\<close>: the elements of a list, the keys of a \<open>dict\<close>, the characters of a
  \<open>str\<close> (each one a \<open>str\<close>, on which \<open>card["count"]\<close> raises, so where a character beyond
  ASCII is cut makes no difference); nothing else can be iterated.
\<close>

fun iterate :: "json \<Rightarrow> error + json list" where
  "iterate (JList xs) = Inr xs"
| "iterate (JObj kvs) = Inr (map (\<lambda>kv. JStr (fst kv)) kvs)"
| "iterate (JStr s) = Inr (map (\<lambda>c. JStr [c]) s)"
| "iterate v = Inl TypeError"

text \<open>The truth value of \<open>if v:\<close>.\<close>

fun truthy :: "json \<Rightarrow> bool" where
  "truthy JNull = False"
| "truthy (JBool b) = b"
| "truthy (JInt n) = (n \<noteq> 0)"
| "truthy (JStr s) = (s \<noteq> [])"
| "truthy (JList xs) = (xs \<noteq> [])"
| "truthy (JObj kvs) = (kvs \<noteq> [])"

text \<open>\<open>"%d" % v\<close>: an integer or a \<open>bool\<close>, else \<open>TypeError\<close>.\<close>

fun percent_d :: "json \<Rightarrow> error + string" where
  "percent_d (JInt n) = Inr (format_d n)"
| "percent_d (JBool b) = Inr (if b then ''1'' else ''0'')"
| "percent_d v = Inl TypeError"

text \<open>
  A value handed to \<open>re.sub\<close> must be a \<open>str\<close> (\<open>TypeError\<close>); a value on which \<open>.upper()\<close> or
  \<open>.replace()\<close> is called must be one too (\<open>AttributeError\<close>).
\<close>

fun str_arg :: "json \<Rightarrow> error + string" where
  "str_arg (JStr s) = Inr s"
| "str_arg v = Inl TypeError"

fun str_method :: "json \<Rightarrow> error + string" where
  "str_method (JStr s) = Inr s"
| "str_method v = Inl AttributeError"

text \<open>\<open>s.replace(old, new)\<close> for a non-empty \<open>old\<close>.\<close>

fun replace :: "string \<Rightarrow> string \<Rightarrow> string \<Rightarrow> string" where
  "replace [] old new = []"
| "replace (c # s) old new =
     (if old \<noteq> [] \<and> startswith (c # s) old
      then new @ replace (drop (length old - 1) s) old new
      else c # replace s old new)"

definition fix_set_code :: "string \<Rightarrow> string" where
  "fix_set_code set_code = upper set_code"

text \<open>
  The three characters of \<open>remove_these\<close> as the source file has them: U+00E2, U+02DC and
  U+2026.
\<close>

definition remove_these :: "string list" where
  "remove_these = [[CHR 0xC3, CHR 0xA2], [CHR 0xCB, CHR 0x9C], [CHR 0xE2, CHR 0x80, CHR 0xA6]]"

definition fix_collector_number :: "string \<Rightarrow> string" where
  "fix_collector_number collector_number =
     foldl (\<lambda>n c. replace n c []) collector_number remove_these"

text \<open>
  The body of the loop over the cards of a section: one line more in \<open>formatted_cards\<close> or
  in \<open>lands\<close>.
\<close>

definition json_card ::
  "json \<Rightarrow> string list \<times> string list \<Rightarrow> error + (string list \<times> string list)" where
  "json_card card' acc =
     (case acc of (formatted_cards, lands) \<Rightarrow>
      and_then (subscript card' ''count'') (\<lambda>count.
      and_then (subscript card' ''card_digest'') (\<lambda>card_digest.
      and_then (and_then (subscript card_digest ''name'') str_arg) (\<lambda>raw_name.
        let name = fix_name_formatting_quirks raw_name in
        and_then (and_then (subscript card_digest ''set'') str_method) (\<lambda>s.
          let set_code = fix_set_code s in
          and_then (and_then (subscript card_digest ''collector_number'') str_method) (\<lambda>n.
            let collector_number = fix_collector_number n in
            if raw_name \<in> set basic_lands then
              Inr (formatted_cards,
                   lands @ [name @ '' ('' @ collector_number @ '') - ('' @ set_code @ '')''])
            else
              and_then (percent_d count) (\<lambda>d.
                let entry_line = d @ '' '' @ name in
                and_then (subscript card' ''printing_specified'') (\<lambda>flag.
                  Inr (formatted_cards @
                         [if truthy flag
                          then entry_line @ '' ['' @ set_code @ ''] '' @ collector_number
                          else entry_line],
                       lands)))))))))"

fun json_cards ::
  "json list \<Rightarrow> string list \<times> string list \<Rightarrow> error + (string list \<times> string list)" where
  "json_cards [] acc = Inr acc"
| "json_cards (card' # cards) acc = and_then (json_card card' acc) (json_cards cards)"

text \<open>The loop over the sections, \<open>include\<close> being the names the caller selected.\<close>

definition include_cards :: "string \<Rightarrow> string list \<Rightarrow> bool" where
  "include_cards card_section include = (card_section \<in> set include \<or> ''all'' \<in> set include)"

fun json_sections ::
  "(string \<times> json) list \<Rightarrow> string list \<Rightarrow> string list \<times> string list
     \<Rightarrow> error + (string list \<times> string list)" where
  "json_sections [] include acc = Inr acc"
| "json_sections ((card_section, cards) # sections) include acc =
     (if include_cards card_section include then
        and_then (iterate cards) (\<lambda>cs.
          and_then (json_cards cs acc) (json_sections sections include))
      else json_sections sections include acc)"

text \<open>
  \<open>scryfall_json_to_txt\<close> up to the end of its loops; \<open>deck_list\<close> is what \<open>json.loads\<close> made
  of the source file.
\<close>

definition json_entries :: "json \<Rightarrow> string list \<Rightarrow> error + (string list \<times> string list)" where
  "json_entries deck_list include =
     and_then (subscript deck_list ''entries'') (\<lambda>entries.
       and_then (items entries) (\<lambda>sections. json_sections sections include ([], [])))"

text \<open>The text printed last, \<open>land_printout\<close>.\<close>

definition land_printout :: "string list \<Rightarrow> string" where
  "land_printout lands = (if lands \<noteq> [] then banner @ join [newline] lands else [])"

text \<open>
  \<open>scryfall_json_to_txt(sourcefile, include, out)\<close>; an \<open>out\<close> that is absent (\<open>''\<close>, or the
  \<open>None\<close> of the command line) is the empty string.
\<close>

definition scryfall_json_to_txt ::
  "json \<Rightarrow> string list \<Rightarrow> string \<Rightarrow> world \<Rightarrow> error option \<times> world" where
  "scryfall_json_to_txt deck_list include out w =
     (case json_entries deck_list include of
        Inl e \<Rightarrow> (Some e, w)
      | Inr (formatted_cards, lands) \<Rightarrow>
          let formatted_card_content = join [newline] formatted_cards;
              w' = (if out \<noteq> [] then write_file out formatted_card_content w
                    else print formatted_card_content w)
          in (None, print (land_printout lands) w'))"

section \<open>What one record contributes\<close>

text \<open>
  The lines a record adds to the two lists when the loop body runs on it alone (none when
  it raises), and, following the specification's words, the records of the sections that
  are selected: those whose name is a member of the include-set, or all of them when the
  include-set contains \<open>all\<close>, in the order of the document.
\<close>

definition card_lines :: "json \<Rightarrow> string list \<times> string list" where
  "card_lines c = (case json_card c ([], []) of Inr r \<Rightarrow> r | Inl e \<Rightarrow> ([], []))"

definition row_lines ::
  "string list \<Rightarrow> int \<Rightarrow> int \<Rightarrow> string list \<Rightarrow> string list \<times> string list" where
  "row_lines csv_column_names idx_count idx_name card' =
     (case csv_card csv_column_names idx_count idx_name card' ([], []) of
        Inr r \<Rightarrow> r | Inl e \<Rightarrow> ([], []))"

definition selected_cards :: "(string \<times> json) list \<Rightarrow> string list \<Rightarrow> json list" where
  "selected_cards sections include =
     concat (map (\<lambda>(name, cards). case iterate cards of Inr cs \<Rightarrow> cs | Inl e \<Rightarrow> [])
       (filter (\<lambda>(name, cards). name \<in> set include \<or> ''all'' \<in> set include) sections))"

section \<open>Names in which the token marker is a word\<close>


section \<open>Example inputs\<close>

text \<open>Concrete inputs at which the theorems below are instantiated.\<close>

definition empty_world :: world where
  "empty_world = \<lparr>files = (\<lambda>path. None), stdout = []\<rparr>"

definition example_csv :: string where
  "example_csv =
     ''count,name,set_code,collector_number,lang'' @ [newline] @
     ''1,Opt,xln,65,en'' @ [newline] @
     ''7,Plains,m21,260,en'' @ [newline]"

definition header_only_csv :: string where
  "header_only_csv = ''count,name,lang'' @ [newline]"

definition example_card :: "int \<Rightarrow> string \<Rightarrow> string \<Rightarrow> string \<Rightarrow> bool \<Rightarrow> json" where
  "example_card n name set_code num flag =
     JObj [(''count'', JInt n),
           (''card_digest'',
            JObj [(''name'', JStr name), (''set'', JStr set_code),
                  (''collector_number'', JStr num)]),
           (''printing_specified'', JBool flag)]"

definition example_deck :: json where
  "example_deck =
     JObj [(''entries'',
            JObj [(''nonlands'', JList [example_card 1 ''Opt'' ''xln'' ''65'' False]),
                  (''lands'', JList [example_card 7 ''Plains'' ''m21'' ''260'' True])])]"

definition empty_deck :: json where
  "empty_deck = JObj [(''entries'', JObj [])]"

definition no_columns_csv :: string where
  "no_columns_csv = ''name,lang'' @ [newline] @ ''Opt,en'' @ [newline]"

definition kurbis_row :: "string list" where
  "kurbis_row =
     [''1'', quote # ''Kurbis'', '' Harvest Celebrant'' @ [quote], ''ncc'', ''12'',
      ''en'' @ [newline]]"

definition example_header :: "string list" where
  "example_header =
     [''count'', ''name'', ''set_code'', ''collector_number'', ''lang'' @ [newline]]"

definition kurbis_cells :: "string list" where
  "kurbis_cells = [quote # ''Kurbis'', '' Harvest Celebrant'' @ [quote]]"

definition three_cells :: "string list" where
  "three_cells = [quote # ''A'', '' B'', '' C'' @ [quote], ''ncc'']"

definition two_sections :: "(string \<times> json) list" where
  "two_sections =
     [(''commanders'', JList [example_card 1 ''Atraxa'' ''c16'' ''28'' True]),
      (''outside'', JList [example_card 2 ''Food Token'' ''teld'' ''15'' False])]"

definition two_section_deck :: json where
  "two_section_deck = JObj [(''entries'', JObj two_sections)]"

definition example_sections :: "(string \<times> json) list" where
  "example_sections =
     [(''nonlands'', JList [example_card 1 ''Opt'' ''xln'' ''65'' False]),
      (''lands'', JList [example_card 7 ''Plains'' ''m21'' ''260'' True])]"

definition plains_row :: "string list" where
  "plains_row = [''7'', ''Plains'', ''m21'', ''260'', ''en'' @ [newline]]"

definition unterminated_csv :: string where
  "unterminated_csv = ''count,name,lang'' @ [newline] @ ''1,Opt,en''"

definition final_column_csv :: string where
  "final_column_csv =
     ''count,name,set_code,collector_number'' @ [newline] @ ''1,Opt,xln,65'' @ [newline]"

definition short_row :: "string list" where
  "short_row = [''1'', ''Opt'', ''xln'', ''65'' @ [newline]]"

section \<open>Properties of the matchers\<close>




section \<open>Properties of the model\<close>

lemma and_then_Inr [simp]: "and_then (Inr x) f = f x"
  by (simp add: and_then_def)

lemma and_then_Inl [simp]: "and_then (Inl e) f = Inl e"
  by (simp add: and_then_def)

lemma and_then_eq_Inr: "and_then r f = Inr y \<longleftrightarrow> (\<exists>x. r = Inr x \<and> f x = Inr y)"
  by (cases r) auto

lemma example_csv_entries:
  "csv_entries example_csv = Inr ([''1 Opt [XLN] 65''], [''Plains (260) - Plains (M21)''])"
  unfolding example_csv_def by code_simp

lemma header_only_csv_entries: "csv_entries header_only_csv = Inr ([], [])"
  unfolding header_only_csv_def by code_simp

lemma example_deck_entries:
  "json_entries example_deck [''all''] = Inr ([''1 Opt''], [''Plains (260) - (M21)''])"
  unfolding example_deck_def example_card_def by code_simp

lemma empty_deck_entries: "json_entries empty_deck [''all''] = Inr ([], [])"
  unfolding empty_deck_def by code_simp

lemma list_index_Inl: "x \<notin> set xs \<Longrightarrow> list_index xs x = Inl ValueError"
  by (induction xs) auto

lemma list_index_error: "list_index xs x = Inl e \<Longrightarrow> e = ValueError"
  by (induction xs arbitrary: e) (auto split: if_splits sum.splits)

lemma getitem_0: "getitem (x # xs) 0 = Inr x"
  by (simp add: getitem_def)

text \<open>A record cannot be processed when the header has no \<open>set_code\<close> or no \<open>collector_number\<close>.\<close>

lemma csv_card_missing_column:
  assumes "''set_code'' \<notin> set csv_column_names \<or>
           ''collector_number'' \<notin> set csv_column_names"
  shows "\<exists>e. csv_card csv_column_names idx_count idx_name card' acc = Inl e"
proof (cases "getitem card' idx_count")
  case (Inl e)
  then show ?thesis by (cases acc) (simp add: csv_card_def)
next
  case count: (Inr count)
  show ?thesis
  proof (cases "normalize_name idx_name card' (length csv_column_names)")
    case (Inl e)
    then show ?thesis using count by (cases acc) (simp add: csv_card_def)
  next
    case (Inr r)
    then show ?thesis using count assms
      by (cases acc; cases r; cases "list_index csv_column_names ''set_code''")
         (auto simp: csv_card_def list_index_Inl Let_def)
  qed
qed

lemma no_columns_csv_lines:
  "csv_lines no_columns_csv = [''name'', ''lang'' @ [newline]] # [[''Opt'', ''en'' @ [newline]]]"
  unfolding no_columns_csv_def by code_simp

lemma getitem_nat: "n < length xs \<Longrightarrow> getitem xs (int n) = Inr (xs ! n)"
  by (simp add: getitem_def)

text \<open>
  The loop of \<open>normalize_name\<close> when the first cell that ends with a quote is \<open>k\<close> cells
  behind the name position: it stops there, having collected the cells in between.
\<close>

lemma normalize_loop_run:
  assumes "i + k < length card'"
    and "endswith (card' ! (i + k)) [quote]"
    and "\<forall>j<k. \<not> endswith (card' ! (i + j)) [quote]"
    and "m \<le> k"
  shows "normalize_loop (int i) card' (int m) (card' ! (i + m)) pieces =
           Inr (pieces @ take (k - m) (drop (Suc (i + m)) card'), int k)"
  using assms(4)
proof (induction "k - m" arbitrary: m pieces)
  case 0
  then have "m = k" by simp
  then show ?case using assms(2) by simp
next
  case (Suc d)
  then have m: "m < k" by simp
  then have unclosed: "\<not> endswith (card' ! (i + m)) [quote]"
    using assms(3) by simp
  have inb: "Suc (i + m) < length card'"
    using m assms(1) by simp
  have get: "getitem card' (int i + (int m + 1)) = Inr (card' ! Suc (i + m))"
  proof -
    have "int i + (int m + 1) = int (Suc (i + m))" by simp
    then show ?thesis using getitem_nat [OF inb] by (simp only:)
  qed
  have step: "normalize_loop (int i) card' (int (Suc m)) (card' ! (i + Suc m))
                (pieces @ [card' ! Suc (i + m)]) =
              Inr ((pieces @ [card' ! Suc (i + m)]) @
                     take (k - Suc m) (drop (Suc (i + Suc m)) card'), int k)"
    using Suc.hyps(1) [of "Suc m"] Suc.hyps(2) m by simp
  have tk: "take (k - m) (drop (Suc (i + m)) card') =
              card' ! Suc (i + m) # take (k - Suc m) (drop (Suc (Suc (i + m))) card')"
    using inb m
    by (simp add: Cons_nth_drop_Suc [symmetric] take_Suc_conv_app_nth
        Suc_diff_Suc [symmetric] del: Suc_diff_Suc)
  show ?case
    using unclosed get step tk by (subst normalize_loop.simps) (simp add: add.commute)
qed

lemma normalize_name_repair:
  assumes "i + k < length card'"
    and "startswith (card' ! i) [quote]"
    and "n < length card'"
    and "endswith (card' ! (i + k)) [quote]"
    and "\<forall>j<k. \<not> endswith (card' ! (i + j)) [quote]"
  shows "normalize_name (int i) card' n =
           Inr (strip (join '','' (take (Suc k) (drop i card'))) [quote], int k)"
proof -
  have i: "i < length card'" using assms(1) by simp
  have "normalize_loop (int i) card' (int 0) (card' ! (i + 0)) [card' ! i] =
          Inr ([card' ! i] @ take (k - 0) (drop (Suc (i + 0)) card'), int k)"
    by (rule normalize_loop_run [OF assms(1) assms(4) assms(5)]) simp
  moreover have "[card' ! i] @ take k (drop (Suc i) card') = take (Suc k) (drop i card')"
    using i by (simp add: Cons_nth_drop_Suc [symmetric])
  ultimately show ?thesis
    using assms(2,3) i by (simp add: normalize_name_def getitem_nat)
qed

text \<open>
  The loops append, record by record, what each record contributes; a run that returns
  has processed every record.
\<close>

lemma json_card_acc:
  "json_card c (fc, ls) =
     and_then (json_card c ([], [])) (\<lambda>(a, b). Inr (fc @ a, ls @ b))"
  by (auto simp: json_card_def and_then_def Let_def split: sum.splits)

lemma json_card_one_line:
  "json_card c ([], []) = Inr (a, b) \<Longrightarrow> length a + length b = 1"
  by (auto simp: json_card_def and_then_def Let_def split: sum.splits if_splits)

lemma json_cards_lines:
  "json_cards cs (fc, ls) = Inr (fc', ls') \<Longrightarrow>
     fc' = fc @ concat (map (\<lambda>c. fst (card_lines c)) cs) \<and>
     ls' = ls @ concat (map (\<lambda>c. snd (card_lines c)) cs) \<and>
     (\<forall>c \<in> set cs. \<exists>r. json_card c ([], []) = Inr r)"
proof (induction cs arbitrary: fc ls)
  case Nil
  then show ?case by simp
next
  case (Cons c cs)
  from Cons.prems obtain a b where c: "json_card c ([], []) = Inr (a, b)"
    and rest: "json_cards cs (fc @ a, ls @ b) = Inr (fc', ls')"
    by (subst (asm) json_cards.simps, subst (asm) json_card_acc)
       (auto simp: and_then_eq_Inr)
  from Cons.IH [OF rest] c show ?case
    by (simp add: card_lines_def)
qed

lemma json_sections_lines:
  "json_sections sections include (fc, ls) = Inr (fc', ls') \<Longrightarrow>
     fc' = fc @ concat (map (\<lambda>c. fst (card_lines c)) (selected_cards sections include)) \<and>
     ls' = ls @ concat (map (\<lambda>c. snd (card_lines c)) (selected_cards sections include)) \<and>
     (\<forall>c \<in> set (selected_cards sections include). \<exists>r. json_card c ([], []) = Inr r)"
proof (induction sections arbitrary: fc ls)
  case Nil
  then show ?case by (simp add: selected_cards_def)
next
  case (Cons s sections)
  obtain name cards where s: "s = (name, cards)" by (cases s)
  show ?case
  proof (cases "include_cards name include")
    case False
    then have sel: "selected_cards (s # sections) include = selected_cards sections include"
      by (simp add: selected_cards_def s include_cards_def)
    from Cons.prems False have "json_sections sections include (fc, ls) = Inr (fc', ls')"
      by (simp add: s)
    from Cons.IH [OF this] show ?thesis by (simp add: sel)
  next
    case True
    with Cons.prems obtain cs fc1 ls1 where it: "iterate cards = Inr cs"
      and cs: "json_cards cs (fc, ls) = Inr (fc1, ls1)"
      and rest: "json_sections sections include (fc1, ls1) = Inr (fc', ls')"
      by (auto simp: s and_then_eq_Inr)
    have sel: "selected_cards (s # sections) include = cs @ selected_cards sections include"
      using True it by (simp add: selected_cards_def s include_cards_def)
    from json_cards_lines [OF cs] Cons.IH [OF rest] show ?thesis
      by (auto simp: sel)
  qed
qed

lemma basic_land_names_fixed:
  assumes "name \<in> set basic_lands"
  shows "fix_name_formatting_quirks name = name"
proof -
  have "fix_name_formatting_quirks ''Plains'' = ''Plains''"
    "fix_name_formatting_quirks ''Mountain'' = ''Mountain''"
    "fix_name_formatting_quirks ''Forest'' = ''Forest''"
    "fix_name_formatting_quirks ''Island'' = ''Island''"
    "fix_name_formatting_quirks ''Swamp'' = ''Swamp''"
    by code_simp+
  with assms show ?thesis by (auto simp: basic_lands_def)
qed

lemma str_method_Inr: "str_method v = Inr s \<longleftrightarrow> v = JStr s"
  by (cases v) auto

lemma json_land_card:
  assumes "subscript c ''card_digest'' = Inr d"
    and "subscript d ''name'' = Inr (JStr name)"
    and "name \<in> set basic_lands"
    and "json_card c ([], []) = Inr r"
  shows "\<exists>set_code num.
           subscript d ''set'' = Inr (JStr set_code) \<and>
           subscript d ''collector_number'' = Inr (JStr num) \<and>
           r = ([], [name @ '' ('' @ fix_collector_number num @ '') - ('' @
                     upper set_code @ '')''])"
  using assms
  by (auto simp: json_card_def and_then_eq_Inr str_method_Inr Let_def fix_set_code_def
      basic_land_names_fixed)

lemma csv_card_acc:
  "csv_card h ic iname c (nl, ls) =
     and_then (csv_card h ic iname c ([], [])) (\<lambda>(a, b). Inr (nl @ a, ls @ b))"
  by (auto simp: csv_card_def and_then_def Let_def split: sum.splits)

lemma csv_cards_lines:
  "csv_cards h ic iname cards (nl, ls) = Inr (nl', ls') \<Longrightarrow>
     nl' = nl @ concat (map (\<lambda>c. fst (row_lines h ic iname c)) cards) \<and>
     ls' = ls @ concat (map (\<lambda>c. snd (row_lines h ic iname c)) cards) \<and>
     (\<forall>c \<in> set cards. \<exists>r. csv_card h ic iname c ([], []) = Inr r)"
proof (induction cards arbitrary: nl ls)
  case Nil
  then show ?case by simp
next
  case (Cons c cards)
  from Cons.prems obtain a b where c: "csv_card h ic iname c ([], []) = Inr (a, b)"
    and rest: "csv_cards h ic iname cards (nl @ a, ls @ b) = Inr (nl', ls')"
    by (subst (asm) csv_cards.simps, subst (asm) csv_card_acc)
       (auto simp: and_then_eq_Inr)
  from Cons.IH [OF rest] c show ?case
    by (simp add: row_lines_def)
qed

lemma csv_land_row:
  assumes "normalize_name iname c (length h) = Inr (name0, off)"
    and "fix_other_name_formatting_quirks name0 \<in> set basic_lands"
    and "csv_card h ic iname c ([], []) = Inr r"
  shows "\<exists>idx_code idx_num set_code num label.
           list_index h ''set_code'' = Inr idx_code \<and>
           list_index h ''collector_number'' = Inr idx_num \<and>
           getitem c (idx_code + off) = Inr set_code \<and>
           getitem c (idx_num + off) = Inr num \<and>
           getitem c (idx_code + off - 1) = Inr label \<and>
           r = ([], [fix_other_name_formatting_quirks name0 @ '' ('' @ num @ '') - '' @
                     label @ '' ('' @ upper set_code @ '')''])"
  using assms
  by (auto simp: csv_card_def and_then_eq_Inr Let_def)

lemma two_section_deck_entries:
  "json_entries two_section_deck [''commanders''] = Inr ([''1 Atraxa [C16] 28''], [])"
  "json_entries two_section_deck [''all''] = Inr ([''1 Atraxa [C16] 28'', ''2 Food''], [])"
  unfolding two_section_deck_def two_sections_def example_card_def by code_simp+

lemma example_csv_lines:
  "csv_lines example_csv =
     example_header # [[''1'', ''Opt'', ''xln'', ''65'', ''en'' @ [newline]], plains_row]"
  unfolding example_csv_def example_header_def plains_row_def by code_simp

lemma example_deck_subscript: "subscript example_deck ''entries'' = Inr (JObj example_sections)"
  by (simp add: example_deck_def example_sections_def)

text \<open>
  Lines and cells: every line that \<open>readlines\<close> returns, except perhaps the last, ends
  with a newline, and the split on commas leaves it at the end of the last cell.
\<close>

lemma endswith_append: "endswith s p \<longleftrightarrow> (\<exists>r. s = r @ p)"
proof
  assume "endswith s p"
  then have "s = take (length s - length p) s @ p"
    by (metis append_take_drop_id endswith_def)
  then show "\<exists>r. s = r @ p" ..
next
  assume "\<exists>r. s = r @ p"
  then show "endswith s p" by (auto simp: endswith_def)
qed

lemma endswith_Cons: "endswith l p \<Longrightarrow> endswith (c # l) p"
  unfolding endswith_append by (metis append_Cons)

lemma endswith_self: "endswith p p"
  by (simp add: endswith_def)

lemma readlines_butlast: "l \<in> set (butlast (readlines s)) \<Longrightarrow> endswith l [newline]"
proof (induction s arbitrary: l)
  case Nil
  then show ?case by simp
next
  case (Cons c s)
  show ?case
  proof (cases "c = newline")
    case True
    with Cons show ?thesis
      by (auto simp: endswith_self split: if_splits)
  next
    case False
    with Cons show ?thesis
      by (cases "readlines s") (auto simp: endswith_Cons split: if_splits)
  qed
qed

lemma readlines_Nil: "readlines s = [] \<longleftrightarrow> s = []"
  by (cases s) (auto split: list.splits)

lemma readlines_terminated:
  "l \<in> set (readlines (s @ [newline])) \<Longrightarrow> endswith l [newline]"
proof (induction s arbitrary: l)
  case Nil
  then show ?case by (simp add: endswith_self)
next
  case (Cons c s)
  then show ?case
    by (cases "readlines (s @ [newline])")
       (auto simp: endswith_self endswith_Cons readlines_Nil split: if_splits)
qed

lemma split_nonempty: "split s sep \<noteq> []"
  by (induction s) (auto split: list.splits)

lemma split_snoc:
  "c \<noteq> sep \<Longrightarrow> split (s @ [c]) sep = butlast (split s sep) @ [last (split s sep) @ [c]]"
proof (induction s)
  case Nil
  then show ?case by simp
next
  case (Cons a s)
  then show ?case
    using split_nonempty [of s sep]
    by (cases "split s sep"; cases "split (s @ [c]) sep") (auto split: if_splits)
qed

lemma split_last_newline:
  assumes "endswith l [newline]"
  shows "endswith (last (split l CHR '','')) [newline]"
proof -
  from assms obtain r where "l = r @ [newline]"
    by (auto simp: endswith_append)
  then show ?thesis
    by (simp add: split_snoc newline_def endswith_append)
qed

lemma unterminated_csv_lines:
  "csv_lines unterminated_csv = [[''count'', ''name'', ''lang'' @ [newline]], [''1'', ''Opt'', ''en'']]"
  unfolding unterminated_csv_def by code_simp

lemma short_row_card:
  "csv_card example_header 0 1 short_row ([], []) = Inr ([''1 Opt [XLN] 65'' @ [newline]], [])"
  "normalize_name 1 short_row (length example_header) = Inr (''Opt'', 0)"
  unfolding example_header_def short_row_def by code_simp+































section \<open>The claims\<close>

text \<open>
  C1. Each normalizer removes the suffix \<open>" Token"\<close> only at the end of the name, and a name
  that merely contains \<open>" Token"\<close> in the middle is returned unchanged. The structured
  converter's pattern has no end anchor: \<open>fix_name_formatting_quirks\<close> takes \<open>" Token"\<close> out
  of the middle of \<open>"Goblin Token Maker"\<close>, where the tabular converter's
  \<open>fix_other_name_formatting_quirks\<close> returns the name as it is.
\<close>

theorem token_removed_mid_string_by_structured_normalizer:
  "fix_name_formatting_quirks ''Goblin Token Maker'' = ''Goblin Maker'' \<and>
   fix_other_name_formatting_quirks ''Goblin Token Maker'' = ''Goblin Token Maker''"
  by code_simp

text \<open>
  C2 (as amended). With no land line the tabular converter still emits the banner, as an
  empty last block, and the structured converter emits none: its land printout is empty.
  With at least one land line both emit the banner and then the land lines joined with
  newlines, the tabular converter behind the main text, the structured converter as the
  land printout it prints after the main text. Stated for runs that print.
\<close>

theorem banner_emission:
  assumes "csv_entries text = Inr (new_lines, lands)"
    and "json_entries deck_list include = Inr (formatted_cards, lands')"
  shows "stdout (snd (main text [] w)) =
           stdout w @ join [newline] new_lines @ banner @ join [newline] lands @ [newline] \<and>
         stdout (snd (scryfall_json_to_txt deck_list include [] w)) =
           stdout w @ join [newline] formatted_cards @ [newline] @
           (if lands' = [] then [] else banner @ join [newline] lands') @ [newline]"
  using assms by (simp add: main_def scryfall_json_to_txt_def print_def land_printout_def)

theorem banner_emission_witness:
  "stdout (snd (main example_csv [] empty_world)) =
     ''1 Opt [XLN] 65'' @ banner @ ''Plains (260) - Plains (M21)'' @ [newline] \<and>
   stdout (snd (scryfall_json_to_txt example_deck [''all''] [] empty_world)) =
     ''1 Opt'' @ [newline] @ banner @ ''Plains (260) - (M21)'' @ [newline]"
  using banner_emission [OF example_csv_entries example_deck_entries, of empty_world]
  by (simp add: empty_world_def)

text \<open>
  The claim as the specification has it, with the two converters the other way round, fails
  where there is no land: the tabular converter prints the banner for a table of the
  header line alone, the structured converter prints two empty lines for a document with
  no section.
\<close>

theorem banner_asymmetry_counterexample:
  "stdout (snd (main header_only_csv [] empty_world)) = banner @ [newline] \<and>
   stdout (snd (scryfall_json_to_txt empty_deck [''all''] [] empty_world)) =
     [newline, newline]"
  by (simp add: main_def scryfall_json_to_txt_def header_only_csv_entries empty_deck_entries
      empty_world_def print_def land_printout_def)

text \<open>
  C3 (as amended). The tabular converter writes the whole final text (main lines, banner,
  land lines) to the destination in one write and prints nothing, or prints all of it
  when there is no destination. The structured converter writes the main lines alone to
  the destination and always prints the land printout (banner and land lines, or the
  empty string); with no destination it prints the main lines and then the land printout.
\<close>

theorem output_destination:
  assumes "csv_entries text = Inr (new_lines, lands)"
    and "json_entries deck_list include = Inr (formatted_cards, lands')"
    and "dest \<noteq> []"
  shows "main text dest w =
           (None, w\<lparr>files := (files w)(dest \<mapsto>
              join [newline] new_lines @ banner @ join [newline] lands)\<rparr>) \<and>
         main text [] w =
           (None, w\<lparr>stdout := stdout w @
              join [newline] new_lines @ banner @ join [newline] lands @ [newline]\<rparr>) \<and>
         scryfall_json_to_txt deck_list include dest w =
           (None, w\<lparr>files := (files w)(dest \<mapsto> join [newline] formatted_cards),
                    stdout := stdout w @ land_printout lands' @ [newline]\<rparr>) \<and>
         scryfall_json_to_txt deck_list include [] w =
           (None, w\<lparr>stdout := stdout w @ join [newline] formatted_cards @ [newline] @
                                land_printout lands' @ [newline]\<rparr>)"
  using assms by (simp add: main_def scryfall_json_to_txt_def print_def write_file_def)

theorem output_destination_witness:
  "main example_csv ''deck.txt'' empty_world =
     (None, empty_world\<lparr>files := (files empty_world)(''deck.txt'' \<mapsto>
        ''1 Opt [XLN] 65'' @ banner @ ''Plains (260) - Plains (M21)'')\<rparr>) \<and>
   scryfall_json_to_txt example_deck [''all''] ''deck.txt'' empty_world =
     (None, empty_world\<lparr>files := (files empty_world)(''deck.txt'' \<mapsto> ''1 Opt''),
        stdout := stdout empty_world @ land_printout [''Plains (260) - (M21)''] @ [newline]\<rparr>)"
proof -
  have d: "''deck.txt'' \<noteq> []" by simp
  show ?thesis
    using output_destination [OF example_csv_entries example_deck_entries d, of empty_world]
    by simp
qed

text \<open>
  The claim as the specification has it fails for the structured converter: with a
  destination, the file receives the main line only, and the banner and the land line
  go to the standard output.
\<close>

theorem structured_destination_counterexample:
  "files (snd (scryfall_json_to_txt example_deck [''all''] ''deck.txt'' empty_world))
     ''deck.txt'' = Some ''1 Opt'' \<and>
   stdout (snd (scryfall_json_to_txt example_deck [''all''] ''deck.txt'' empty_world)) =
     banner @ ''Plains (260) - (M21)'' @ [newline]"
  by (simp add: scryfall_json_to_txt_def example_deck_entries empty_world_def print_def
      write_file_def land_printout_def)

text \<open>
  C4. When the cell at the name position begins with a quote and the record has more
  cells than the header, and the first cell that ends with a quote is \<open>k\<close> cells further
  on, \<open>normalize_name\<close> returns the cells from the name position up to that one joined
  with commas, the quotes around the result stripped, together with the offset \<open>k\<close>, for
  any \<open>k\<close>; the loop body of \<open>main\<close> then reads the set code and the collector number at
  their header positions plus \<open>k\<close>.
\<close>

theorem desync_repair:
  assumes "i + k < length card'"
    and "startswith (card' ! i) [quote]"
    and "n < length card'"
    and "endswith (card' ! (i + k)) [quote]"
    and "\<forall>j<k. \<not> endswith (card' ! (i + j)) [quote]"
    and "name = strip (join '','' (take (Suc k) (drop i card'))) [quote]"
  shows "normalize_name (int i) card' n = Inr (name, int k) \<and>
         (n = length csv_column_names \<and>
          list_index csv_column_names ''set_code'' = Inr idx_code \<and>
          list_index csv_column_names ''collector_number'' = Inr idx_num \<and>
          getitem card' idx_count = Inr count \<and>
          getitem card' (idx_code + int k) = Inr set_code \<and>
          getitem card' (idx_num + int k) = Inr num \<longrightarrow>
          csv_card csv_column_names idx_count (int i) card' (new_lines, lands) =
            (if fix_other_name_formatting_quirks name \<in> set basic_lands then
               and_then (getitem card' (idx_code + int k - 1)) (\<lambda>label.
                 Inr (new_lines,
                      lands @ [fix_other_name_formatting_quirks name @ '' ('' @ num @
                               '') - '' @ label @ '' ('' @ upper set_code @ '')'']))
             else
               Inr (new_lines @
                      [count @ '' '' @ fix_other_name_formatting_quirks name @
                       '' ['' @ upper set_code @ ''] '' @ num],
                    lands)))"
  using normalize_name_repair [OF assms(1-5)] assms(6)
  by (auto simp: csv_card_def)

theorem desync_repair_witness:
  "normalize_name 0 kurbis_cells 1 = Inr (''Kurbis, Harvest Celebrant'', 1) \<and>
   normalize_name 0 three_cells 2 = Inr (''A, B, C'', 2) \<and>
   normalize_name 1 kurbis_row 5 = Inr (''Kurbis, Harvest Celebrant'', 1) \<and>
   csv_card example_header 0 1 kurbis_row ([], []) =
     Inr ([''1 Kurbis, Harvest Celebrant [NCC] 12''], [])"
proof -
  have c1: "0 + 1 < length kurbis_cells" "1 < length kurbis_cells"
    and c2: "startswith (kurbis_cells ! 0) [quote]"
    and c4: "endswith (kurbis_cells ! (0 + 1)) [quote]"
    and c5: "\<forall>j<1. \<not> endswith (kurbis_cells ! (0 + j)) [quote]"
    by (simp_all add: kurbis_cells_def startswith_def endswith_def quote_def)
  have c6: "''Kurbis, Harvest Celebrant'' =
              strip (join '','' (take (Suc 1) (drop 0 kurbis_cells))) [quote]"
    unfolding kurbis_cells_def by code_simp
  have t1: "0 + 2 < length three_cells" "2 < length three_cells"
    and t2: "startswith (three_cells ! 0) [quote]"
    and t4: "endswith (three_cells ! (0 + 2)) [quote]"
    and t5: "\<forall>j<2. \<not> endswith (three_cells ! (0 + j)) [quote]"
    by (simp_all add: three_cells_def startswith_def endswith_def quote_def less_Suc_eq
        numeral_2_eq_2)
  have t6: "''A, B, C'' = strip (join '','' (take (Suc 2) (drop 0 three_cells))) [quote]"
    unfolding three_cells_def by code_simp
  have a2: "normalize_name (int 0) three_cells 2 = Inr (''A, B, C'', int 2)"
    using desync_repair [OF t1(1) t2 t1(2) t4 t5 t6] by (rule conjunct1)
  have r1: "1 + 1 < length kurbis_row" "5 < length kurbis_row"
    and r2: "startswith (kurbis_row ! 1) [quote]"
    and r4: "endswith (kurbis_row ! (1 + 1)) [quote]"
    and r5: "\<forall>j<1. \<not> endswith (kurbis_row ! (1 + j)) [quote]"
    by (simp_all add: kurbis_row_def startswith_def endswith_def quote_def)
  have r6: "''Kurbis, Harvest Celebrant'' =
              strip (join '','' (take (Suc 1) (drop 1 kurbis_row))) [quote]"
    unfolding kurbis_row_def by code_simp
  have fields: "5 = length example_header \<and>
      list_index example_header ''set_code'' = Inr 2 \<and>
      list_index example_header ''collector_number'' = Inr 3 \<and>
      getitem kurbis_row 0 = Inr ''1'' \<and>
      getitem kurbis_row (2 + int 1) = Inr ''ncc'' \<and>
      getitem kurbis_row (3 + int 1) = Inr ''12''"
    by (simp add: example_header_def kurbis_row_def getitem_def)
  have v: "fix_other_name_formatting_quirks ''Kurbis, Harvest Celebrant'' =
             ''Kurbis, Harvest Celebrant''" "upper ''ncc'' = ''NCC''"
    by code_simp+
  have a: "normalize_name (int 0) kurbis_cells 1 = Inr (''Kurbis, Harvest Celebrant'', int 1)"
    using desync_repair [OF c1(1) c2 c1(2) c4 c5 c6] by (rule conjunct1)
  note row = desync_repair [OF r1(1) r2 r1(2) r4 r5 r6]
  have b: "normalize_name (int 1) kurbis_row 5 = Inr (''Kurbis, Harvest Celebrant'', int 1)"
    using row by (rule conjunct1)
  have c: "csv_card example_header 0 (int 1) kurbis_row ([], []) =
             Inr ([''1 Kurbis, Harvest Celebrant [NCC] 12''], [])"
    using row [THEN conjunct2, THEN mp, OF fields, of "[]" "[]"]
    by (simp add: v basic_lands_def)
  from a a2 b c show ?thesis by simp
qed

text \<open>
  C5 (as amended). In a run that returns, a record whose name is exactly one of Plains,
  Mountain, Forest, Island and Swamp (the normalized name in the tabular converter, the
  raw name of the digest in the structured one) contributes no line to the main block,
  which is made of the contributions of the records in order. In the tabular converter,
  and in the structured converter when the record's section is selected, its line is in
  the land block, with its collector number and its set code in upper case.
\<close>

theorem basic_land_routing:
  "(csv_entries text = Inr (new_lines, lands) \<and>
    csv_lines text = csv_column_names # cards \<and>
    list_index csv_column_names ''count'' = Inr idx_count \<and>
    list_index csv_column_names ''name'' = Inr idx_name \<and>
    card' \<in> set cards \<and>
    normalize_name idx_name card' (length csv_column_names) = Inr (name0, name_offset) \<and>
    fix_other_name_formatting_quirks name0 \<in> set basic_lands \<longrightarrow>
      new_lines =
        concat (map (\<lambda>c. fst (row_lines csv_column_names idx_count idx_name c)) cards) \<and>
      (\<exists>idx_code idx_num set_code num label.
         list_index csv_column_names ''set_code'' = Inr idx_code \<and>
         list_index csv_column_names ''collector_number'' = Inr idx_num \<and>
         getitem card' (idx_code + name_offset) = Inr set_code \<and>
         getitem card' (idx_num + name_offset) = Inr num \<and>
         getitem card' (idx_code + name_offset - 1) = Inr label \<and>
         row_lines csv_column_names idx_count idx_name card' =
           ([], [fix_other_name_formatting_quirks name0 @ '' ('' @ num @ '') - '' @ label @
                 '' ('' @ upper set_code @ '')'']) \<and>
         fix_other_name_formatting_quirks name0 @ '' ('' @ num @ '') - '' @ label @
           '' ('' @ upper set_code @ '')'' \<in> set lands)) \<and>
   (json_entries deck_list include = Inr (formatted_cards, lands') \<and>
    subscript deck_list ''entries'' = Inr (JObj sections) \<and>
    c \<in> set (selected_cards sections include) \<and>
    subscript c ''card_digest'' = Inr digest \<and>
    subscript digest ''name'' = Inr (JStr name) \<and>
    name \<in> set basic_lands \<longrightarrow>
      formatted_cards =
        concat (map (\<lambda>c. fst (card_lines c)) (selected_cards sections include)) \<and>
      (\<exists>set_code num.
         subscript digest ''set'' = Inr (JStr set_code) \<and>
         subscript digest ''collector_number'' = Inr (JStr num) \<and>
         card_lines c =
           ([], [name @ '' ('' @ fix_collector_number num @ '') - ('' @
                 upper set_code @ '')'']) \<and>
         name @ '' ('' @ fix_collector_number num @ '') - ('' @ upper set_code @ '')''
           \<in> set lands'))"
proof (intro conjI impI; elim conjE)
  assume run: "csv_entries text = Inr (new_lines, lands)"
    and lines: "csv_lines text = csv_column_names # cards"
    and ic: "list_index csv_column_names ''count'' = Inr idx_count"
    and iname: "list_index csv_column_names ''name'' = Inr idx_name"
    and mem: "card' \<in> set cards"
    and nm: "normalize_name idx_name card' (length csv_column_names) = Inr (name0, name_offset)"
    and land: "fix_other_name_formatting_quirks name0 \<in> set basic_lands"
  from run lines ic iname
  have loop: "csv_cards csv_column_names idx_count idx_name cards ([], []) = Inr (new_lines, lands)"
    by (simp add: csv_entries_def getitem_0)
  note ch = csv_cards_lines [OF loop]
  from ch show "new_lines =
      concat (map (\<lambda>c. fst (row_lines csv_column_names idx_count idx_name c)) cards)"
    by simp
  from ch mem obtain r where r: "csv_card csv_column_names idx_count idx_name card' ([], []) = Inr r"
    by blast
  from csv_land_row [OF nm land r] obtain idx_code idx_num set_code num label where
    f: "list_index csv_column_names ''set_code'' = Inr idx_code"
       "list_index csv_column_names ''collector_number'' = Inr idx_num"
       "getitem card' (idx_code + name_offset) = Inr set_code"
       "getitem card' (idx_num + name_offset) = Inr num"
       "getitem card' (idx_code + name_offset - 1) = Inr label"
    and rl: "r = ([], [fix_other_name_formatting_quirks name0 @ '' ('' @ num @ '') - '' @
                 label @ '' ('' @ upper set_code @ '')''])"
    by blast
  from r rl have rows: "row_lines csv_column_names idx_count idx_name card' =
      ([], [fix_other_name_formatting_quirks name0 @ '' ('' @ num @ '') - '' @ label @
            '' ('' @ upper set_code @ '')''])"
    by (simp add: row_lines_def)
  have "fix_other_name_formatting_quirks name0 @ '' ('' @ num @ '') - '' @ label @
          '' ('' @ upper set_code @ '')'' \<in> set lands"
    using ch mem rows by force
  with f rows show "\<exists>idx_code idx_num set_code num label.
         list_index csv_column_names ''set_code'' = Inr idx_code \<and>
         list_index csv_column_names ''collector_number'' = Inr idx_num \<and>
         getitem card' (idx_code + name_offset) = Inr set_code \<and>
         getitem card' (idx_num + name_offset) = Inr num \<and>
         getitem card' (idx_code + name_offset - 1) = Inr label \<and>
         row_lines csv_column_names idx_count idx_name card' =
           ([], [fix_other_name_formatting_quirks name0 @ '' ('' @ num @ '') - '' @ label @
                 '' ('' @ upper set_code @ '')'']) \<and>
         fix_other_name_formatting_quirks name0 @ '' ('' @ num @ '') - '' @ label @
           '' ('' @ upper set_code @ '')'' \<in> set lands"
    by blast
next
  assume run: "json_entries deck_list include = Inr (formatted_cards, lands')"
    and e: "subscript deck_list ''entries'' = Inr (JObj sections)"
    and mem: "c \<in> set (selected_cards sections include)"
    and d: "subscript c ''card_digest'' = Inr digest"
    and nm: "subscript digest ''name'' = Inr (JStr name)"
    and land: "name \<in> set basic_lands"
  from run e have loop: "json_sections sections include ([], []) = Inr (formatted_cards, lands')"
    by (simp add: json_entries_def)
  note ch = json_sections_lines [OF loop]
  from ch show "formatted_cards =
      concat (map (\<lambda>c. fst (card_lines c)) (selected_cards sections include))"
    by simp
  from ch mem obtain r where r: "json_card c ([], []) = Inr r"
    by blast
  from json_land_card [OF d nm land r] obtain set_code num where
    f: "subscript digest ''set'' = Inr (JStr set_code)"
       "subscript digest ''collector_number'' = Inr (JStr num)"
    and rl: "r = ([], [name @ '' ('' @ fix_collector_number num @ '') - ('' @
                     upper set_code @ '')''])"
    by blast
  from r rl have cl: "card_lines c =
      ([], [name @ '' ('' @ fix_collector_number num @ '') - ('' @ upper set_code @ '')''])"
    by (simp add: card_lines_def)
  have "name @ '' ('' @ fix_collector_number num @ '') - ('' @ upper set_code @ '')''
          \<in> set lands'"
    using ch mem cl by force
  with f cl show "\<exists>set_code num.
         subscript digest ''set'' = Inr (JStr set_code) \<and>
         subscript digest ''collector_number'' = Inr (JStr num) \<and>
         card_lines c =
           ([], [name @ '' ('' @ fix_collector_number num @ '') - ('' @
                 upper set_code @ '')'']) \<and>
         name @ '' ('' @ fix_collector_number num @ '') - ('' @ upper set_code @ '')''
           \<in> set lands'"
    by blast
qed

theorem basic_land_routing_witness:
  "row_lines example_header 0 1 plains_row = ([], [''Plains (260) - Plains (M21)'']) \<and>
   card_lines (example_card 7 ''Plains'' ''m21'' ''260'' True) = ([], [''Plains (260) - (M21)''])"
proof -
  have idx: "list_index example_header ''count'' = Inr 0"
    "list_index example_header ''name'' = Inr 1"
    by (simp_all add: example_header_def)
  have mem: "plains_row \<in> set [[''1'', ''Opt'', ''xln'', ''65'', ''en'' @ [newline]], plains_row]"
    by simp
  have nm: "normalize_name 1 plains_row (length example_header) = Inr (''Plains'', 0)"
    unfolding plains_row_def example_header_def by code_simp
  have fixed: "fix_other_name_formatting_quirks ''Plains'' = ''Plains''"
    "upper ''m21'' = ''M21''" "fix_collector_number ''260'' = ''260''"
    by code_simp+
  have land: "fix_other_name_formatting_quirks ''Plains'' \<in> set basic_lands"
    "''Plains'' \<in> set basic_lands"
    by (simp_all add: fixed basic_lands_def)
  have sel: "example_card 7 ''Plains'' ''m21'' ''260'' True \<in>
               set (selected_cards example_sections [''all''])"
    by (simp add: selected_cards_def example_sections_def)
  have dg: "subscript (example_card 7 ''Plains'' ''m21'' ''260'' True) ''card_digest'' =
      Inr (JObj [(''name'', JStr ''Plains''), (''set'', JStr ''m21''),
                 (''collector_number'', JStr ''260'')])"
    "subscript (JObj [(''name'', JStr ''Plains''), (''set'', JStr ''m21''),
                 (''collector_number'', JStr ''260'')]) ''name'' = Inr (JStr ''Plains'')"
    by (simp_all add: example_card_def)
  note t = basic_land_routing [of example_csv "[''1 Opt [XLN] 65'']"
      "[''Plains (260) - Plains (M21)'']" example_header _ 0 1 plains_row "''Plains''" 0
      example_deck "[''all'']" "[''1 Opt'']" "[''Plains (260) - (M21)'']" example_sections
      "example_card 7 ''Plains'' ''m21'' ''260'' True" _ "''Plains''"]
  from t [THEN conjunct1, THEN mp,
      OF conjI [OF example_csv_entries conjI [OF example_csv_lines conjI [OF idx(1)
        conjI [OF idx(2) conjI [OF mem conjI [OF nm land(1)]]]]]]]
  have a: "row_lines example_header 0 1 plains_row = ([], [''Plains (260) - Plains (M21)''])"
    by (auto simp: example_header_def plains_row_def getitem_def fixed)
  from t [THEN conjunct2, THEN mp,
      OF conjI [OF example_deck_entries conjI [OF example_deck_subscript conjI [OF sel
        conjI [OF dg(1) conjI [OF dg(2) land(2)]]]]]]
  have b: "card_lines (example_card 7 ''Plains'' ''m21'' ''260'' True) =
             ([], [''Plains (260) - (M21)''])"
    by (auto simp: fixed)
  from a b show ?thesis by simp
qed

text \<open>
  The claim without the condition on the section fails: with the include-set
  \<open>{nonlands}\<close> the Plains of the section \<open>lands\<close> is in neither block.
\<close>

theorem unselected_basic_land_counterexample:
  "json_entries example_deck [''nonlands''] = Inr ([''1 Opt''], [])"
  unfolding example_deck_def example_card_def by code_simp

text \<open>
  C6. In a run of the structured converter that returns, the lines emitted are those of
  the records of the selected sections and of no other: a section is selected if and
  only if its name is in the include-set or the include-set contains \<open>all\<close>; the sections
  come in the order of the document and the records in their order within the section,
  each one with exactly one line.
\<close>

theorem section_inclusion:
  assumes "json_entries deck_list include = Inr (formatted_cards, lands)"
  shows "\<exists>sections. subscript deck_list ''entries'' = Inr (JObj sections) \<and>
           formatted_cards = concat (map (\<lambda>c. fst (card_lines c)) (selected_cards sections include)) \<and>
           lands = concat (map (\<lambda>c. snd (card_lines c)) (selected_cards sections include)) \<and>
           (\<forall>c \<in> set (selected_cards sections include).
              length (fst (card_lines c)) + length (snd (card_lines c)) = 1)"
proof -
  from assms obtain entries sections where e: "subscript deck_list ''entries'' = Inr entries"
    and i: "items entries = Inr sections"
    and run: "json_sections sections include ([], []) = Inr (formatted_cards, lands)"
    by (auto simp: json_entries_def and_then_eq_Inr)
  have one: "length (fst (card_lines c)) + length (snd (card_lines c)) = 1"
    if "c \<in> set (selected_cards sections include)" for c
  proof -
    from that json_sections_lines [OF run] obtain a b where "json_card c ([], []) = Inr (a, b)"
      by fastforce
    from json_card_one_line [OF this] this show ?thesis
      by (simp add: card_lines_def)
  qed
  from i have "entries = JObj sections" by (cases entries) auto
  with e json_sections_lines [OF run] one show ?thesis
    by auto
qed

theorem section_inclusion_witness:
  "concat (map (\<lambda>c. fst (card_lines c)) (selected_cards two_sections [''commanders''])) =
     [''1 Atraxa [C16] 28''] \<and>
   concat (map (\<lambda>c. fst (card_lines c)) (selected_cards two_sections [''all''])) =
     [''1 Atraxa [C16] 28'', ''2 Food'']"
  using section_inclusion [OF two_section_deck_entries(1)]
    section_inclusion [OF two_section_deck_entries(2)]
  by (auto simp: two_section_deck_def)






text \<open>
  C9 (as amended). A table whose header line lacks \<open>count\<close> or \<open>name\<close>, a table whose header
  line lacks \<open>set_code\<close> or \<open>collector_number\<close> and that has at least one record, and a
  document without the key \<open>entries\<close> make the converter raise; nothing is written and
  nothing is printed. (The last two columns are looked up once per record, so a table
  without records raises nothing for them.)
\<close>

theorem missing_schema_element_raises:
  assumes "csv_lines text = csv_column_names # cards"
  shows "(''count'' \<notin> set csv_column_names \<or> ''name'' \<notin> set csv_column_names \<longrightarrow>
            main text dest w = (Some ValueError, w)) \<and>
         ((''set_code'' \<notin> set csv_column_names \<or>
           ''collector_number'' \<notin> set csv_column_names) \<and> cards \<noteq> [] \<longrightarrow>
            (\<exists>e. main text dest w = (Some e, w))) \<and>
         (map_of members ''entries'' = None \<longrightarrow>
            scryfall_json_to_txt (JObj members) include out w = (Some KeyError, w))"
proof (intro conjI impI)
  assume "''count'' \<notin> set csv_column_names \<or> ''name'' \<notin> set csv_column_names"
  then have "csv_entries text = Inl ValueError"
    using assms
    by (cases "list_index csv_column_names ''count''")
       (auto simp: csv_entries_def getitem_0 list_index_Inl dest: list_index_error)
  then show "main text dest w = (Some ValueError, w)"
    by (simp add: main_def)
next
  assume a: "(''set_code'' \<notin> set csv_column_names \<or>
              ''collector_number'' \<notin> set csv_column_names) \<and> cards \<noteq> []"
  then obtain c cs where cards: "cards = c # cs"
    by (cases cards) auto
  have "\<exists>e. csv_entries text = Inl e"
  proof (cases "list_index csv_column_names ''count''")
    case (Inl e)
    then show ?thesis using assms by (simp add: csv_entries_def getitem_0)
  next
    case ic: (Inr ic)
    show ?thesis
    proof (cases "list_index csv_column_names ''name''")
      case (Inl e)
      then show ?thesis using assms ic by (simp add: csv_entries_def getitem_0)
    next
      case (Inr i)
      obtain e where "csv_card csv_column_names ic i c ([], []) = Inl e"
        using csv_card_missing_column a by blast
      then show ?thesis using assms ic Inr cards
        by (simp add: csv_entries_def getitem_0)
    qed
  qed
  then show "\<exists>e. main text dest w = (Some e, w)"
    by (auto simp: main_def)
next
  assume "map_of members ''entries'' = None"
  then show "scryfall_json_to_txt (JObj members) include out w = (Some KeyError, w)"
    by (simp add: scryfall_json_to_txt_def json_entries_def)
qed

theorem missing_schema_element_raises_witness:
  "main no_columns_csv ''deck.txt'' empty_world = (Some ValueError, empty_world) \<and>
   scryfall_json_to_txt (JObj []) [''all''] ''deck.txt'' empty_world =
     (Some KeyError, empty_world)"
  using missing_schema_element_raises [OF no_columns_csv_lines,
      of "''deck.txt''" empty_world "[]" "[''all'']" "''deck.txt''"]
  by (simp add: newline_def)

text \<open>
  The claim without the condition on the records fails: a table of the header line
  \<open>count,name,lang\<close> alone has neither \<open>set_code\<close> nor \<open>collector_number\<close>, and the run
  ends normally with the banner written to the destination.
\<close>

theorem missing_column_without_records_counterexample:
  "main header_only_csv ''deck.txt'' empty_world =
     (None, empty_world\<lparr>files := (files empty_world)(''deck.txt'' \<mapsto> banner)\<rparr>)"
  by (simp add: main_def write_file_def header_only_csv_entries)

text \<open>
  C10 (as amended). The lines are split on the comma with their terminator left in place:
  the last cell of every line that ends with a newline (every line but the last, and the
  last too when the text ends with a newline) ends with that newline. When the collector
  number of a record that is not a basic land is read from such a last cell, the
  rendered line \<open>"{count} {name} [{SET}] {num}"\<close> ends with the cell, newline included.
\<close>

theorem line_terminator_retained:
  "(\<forall>cells \<in> set (butlast (csv_lines text)). endswith (last cells) [newline]) \<and>
   (endswith text [newline] \<longrightarrow>
      (\<forall>cells \<in> set (csv_lines text). endswith (last cells) [newline])) \<and>
   (csv_card csv_column_names idx_count idx_name card' (new_lines, lands) =
      Inr (new_lines', lands') \<and>
    normalize_name idx_name card' (length csv_column_names) = Inr (name0, name_offset) \<and>
    fix_other_name_formatting_quirks name0 \<notin> set basic_lands \<and>
    list_index csv_column_names ''collector_number'' = Inr idx_num \<and>
    getitem card' (idx_num + name_offset) = Inr (last card') \<and>
    endswith (last card') [newline] \<longrightarrow>
      lands' = lands \<and>
      (\<exists>count set_code line.
         line = count @ '' '' @ fix_other_name_formatting_quirks name0 @ '' ['' @
                upper set_code @ ''] '' @ last card' \<and>
         new_lines' = new_lines @ [line] \<and> endswith line [newline]))"
proof (intro conjI ballI impI; (elim conjE)?)
  fix cells assume "cells \<in> set (butlast (csv_lines text))"
  then obtain l where "l \<in> set (butlast (readlines text))" "cells = split l CHR '',''"
    by (auto simp: csv_lines_def map_butlast [symmetric])
  then show "endswith (last cells) [newline]"
    using readlines_butlast split_last_newline by simp
next
  fix cells assume "endswith text [newline]" "cells \<in> set (csv_lines text)"
  then obtain l r where "l \<in> set (readlines (r @ [newline]))" "cells = split l CHR '',''"
    by (auto simp: csv_lines_def endswith_append)
  then show "endswith (last cells) [newline]"
    using readlines_terminated split_last_newline by simp
next
  assume run: "csv_card csv_column_names idx_count idx_name card' (new_lines, lands) =
      Inr (new_lines', lands')"
    "normalize_name idx_name card' (length csv_column_names) = Inr (name0, name_offset)"
    "fix_other_name_formatting_quirks name0 \<notin> set basic_lands"
    "list_index csv_column_names ''collector_number'' = Inr idx_num"
    "getitem card' (idx_num + name_offset) = Inr (last card')"
    and ended: "endswith (last card') [newline]"
  from run show "lands' = lands"
    by (auto simp: csv_card_def and_then_eq_Inr Let_def)
  from run obtain count set_code where
    "new_lines' = new_lines @
       [count @ '' '' @ fix_other_name_formatting_quirks name0 @ '' ['' @
        upper set_code @ ''] '' @ last card']"
    by (auto simp: csv_card_def and_then_eq_Inr Let_def)
  moreover from ended have
    "endswith (count @ '' '' @ fix_other_name_formatting_quirks name0 @ '' ['' @
               upper set_code @ ''] '' @ last card') [newline]"
    unfolding endswith_append by (metis append.assoc)
  ultimately show "\<exists>count set_code line.
         line = count @ '' '' @ fix_other_name_formatting_quirks name0 @ '' ['' @
                upper set_code @ ''] '' @ last card' \<and>
         new_lines' = new_lines @ [line] \<and> endswith line [newline]"
    by blast
qed

theorem line_terminator_retained_witness:
  "endswith (last (hd (csv_lines unterminated_csv))) [newline] \<and>
   endswith (last (last (csv_lines example_csv))) [newline] \<and>
   csv_card example_header 0 1 short_row ([], []) =
     Inr ([''1 Opt [XLN] 65'' @ [newline]], []) \<and>
   endswith (''1 Opt [XLN] 65'' @ [newline]) [newline]"
proof -
  note t = line_terminator_retained [of unterminated_csv example_header 0 1 short_row "[]" "[]"
      "[''1 Opt [XLN] 65'' @ [newline]]" "[]" "''Opt''" 0 3]
  have "hd (csv_lines unterminated_csv) \<in> set (butlast (csv_lines unterminated_csv))"
    by (simp add: unterminated_csv_lines)
  with t [THEN conjunct1] have a: "endswith (last (hd (csv_lines unterminated_csv))) [newline]"
    by (rule bspec)
  have nl: "fix_other_name_formatting_quirks ''Opt'' \<notin> set basic_lands"
  proof -
    have "fix_other_name_formatting_quirks ''Opt'' = ''Opt''" by code_simp
    then show ?thesis by (simp add: basic_lands_def)
  qed
  have idx: "list_index example_header ''collector_number'' = Inr 3"
    by (simp add: example_header_def)
  have get: "getitem short_row (3 + 0) = Inr (last short_row)"
    by (simp add: short_row_def getitem_def)
  have ended: "endswith (last short_row) [newline]"
    by (simp add: short_row_def endswith_def)
  have "endswith example_csv [newline]"
    by (simp add: example_csv_def endswith_def)
  moreover have "last (csv_lines example_csv) \<in> set (csv_lines example_csv)"
    by (simp add: example_csv_lines)
  ultimately have a': "endswith (last (last (csv_lines example_csv))) [newline]"
    using line_terminator_retained [of example_csv] by blast
  from t [THEN conjunct2, THEN conjunct2, THEN mp,
      OF conjI [OF short_row_card(1) conjI [OF short_row_card(2) conjI [OF nl
        conjI [OF idx conjI [OF get ended]]]]]]
  have b: "endswith (''1 Opt [XLN] 65'' @ [newline]) [newline]"
    by auto
  from a a' b short_row_card(1) show ?thesis by simp
qed

text \<open>
  The claim as stated fails twice. With \<open>collector_number\<close> as the last column of the
  header, the header cell is \<open>"collector_number\n"\<close>, the lookup of \<open>collector_number\<close>
  raises \<open>ValueError\<close> at the first record and no line is rendered; and the last cell of a
  last line without terminator has no newline.
\<close>

theorem line_terminator_counterexample:
  "csv_entries final_column_csv = Inl ValueError \<and>
   \<not> endswith (last (last (csv_lines unterminated_csv))) [newline]"
  unfolding final_column_csv_def unfolding unterminated_csv_def by code_simp

end
